theory Spec2Isabelle
  imports Main "HOL-Library.Word"
begin

section \<open>FSLogHandler: a log handler writing to the on-device filesystem\<close>

text \<open>
  A shallow embedding of \<^verbatim>\<open>src/FSLogHandler.cpp\<close> and \<^verbatim>\<open>src/FSLogHandler.h\<close>.
  C strings and the \<^verbatim>\<open>String\<close> class are \<open>string\<close> (a list of 8-bit characters),
  \<^verbatim>\<open>unsigned int\<close> is \<open>32 word\<close>, file descriptors and \<^verbatim>\<open>_off_t\<close> are \<open>int\<close>.
  The POSIX calls the handler makes are recorded in a call trace, and what they answer
  is either computed from a small file store or handed in by the caller of the model.
\<close>

subsection \<open>Log records as the framework hands them over\<close>

datatype LogLevel =
    LOG_LEVEL_ALL
  | LOG_LEVEL_TRACE
  | LOG_LEVEL_INFO
  | LOG_LEVEL_WARN
  | LOG_LEVEL_ERROR
  | LOG_LEVEL_PANIC
  | LOG_LEVEL_NONE

text \<open>
  The fields of \<^verbatim>\<open>LogAttributes\<close> that \<^verbatim>\<open>logMessage\<close> reads: six presence
  bits and the six values they guard.
\<close>

record LogAttributes =
  has_file :: bool
  has_line :: bool
  has_function :: bool
  has_time :: bool
  has_code :: bool
  has_details :: bool
  attr_file :: string
  attr_line :: int
  attr_function :: string
  attr_time :: "32 word"
  attr_code :: int
  attr_details :: string

subsection \<open>Number formatting of the C library\<close>

definition digit_char :: "nat \<Rightarrow> char" where
  "digit_char d = ''0123456789'' ! d"

fun dec :: "nat \<Rightarrow> string" where
  "dec n = (if n < 10 then [digit_char n] else dec (n div 10) @ [digit_char (n mod 10)])"

declare dec.simps [simp del]

text \<open>\<^verbatim>\<open>String::format("%010u ", (unsigned)attr.time)\<close> without the trailing blank.\<close>

definition fmt_010u :: "32 word \<Rightarrow> string" where
  "fmt_010u t = (let d = dec (unat t) in replicate (10 - length d) (CHR ''0'') @ d)"

text \<open>\<^verbatim>\<open>String(attr.line)\<close>: a signed decimal.\<close>

definition String_of_int :: "int \<Rightarrow> string" where
  "String_of_int i = (if i < 0 then ''-'' @ dec (nat (- i)) else dec (nat i))"

subsection \<open>extractFileName and extractFuncName\<close>

text \<open>\<^verbatim>\<open>strrchr(s, c)\<close>: the suffix of \<open>s\<close> that starts at its last \<open>c\<close>, if any.\<close>

fun strrchr :: "string \<Rightarrow> char \<Rightarrow> string option" where
  "strrchr [] c = None"
| "strrchr (x # xs) c =
     (case strrchr xs c of
        Some r \<Rightarrow> Some r
      | None \<Rightarrow> if x = c then Some (x # xs) else None)"

definition extractFileName :: "string \<Rightarrow> string" where
  "extractFileName s =
     (case strrchr s (CHR ''/'') of
        Some s1 \<Rightarrow> tl s1
      | None \<Rightarrow> s)"

text \<open>
  The loop of \<^verbatim>\<open>extractFuncName\<close>: \<open>s1\<close> is the start pointer, the second argument the
  scan pointer \<open>s\<close>; both are suffixes of the function string. It returns \<open>s1\<close> and the
  scan pointer where the loop stopped.
\<close>

fun extractFuncName_scan :: "string \<Rightarrow> string \<Rightarrow> string \<times> string" where
  "extractFuncName_scan s1 [] = (s1, [])"
| "extractFuncName_scan s1 (c # cs) =
     (if c = CHR '' '' then extractFuncName_scan cs cs
      else if c = CHR ''('' then (s1, c # cs)
      else extractFuncName_scan s1 cs)"

text \<open>
  The result is the pointer \<open>s1\<close> (the rest of the string from there on) and the
  length \<open>s - s1\<close> stored through \<^verbatim>\<open>size\<close>.
\<close>

definition extractFuncName :: "string \<Rightarrow> string \<times> nat" where
  "extractFuncName s =
     (case extractFuncName_scan s s of
        (s1, s') \<Rightarrow> (s1, length s1 - length s'))"

subsection \<open>The line logMessage builds\<close>

text \<open>
  Lines 158 to 222 of \<^verbatim>\<open>logMessage\<close>: the \<^verbatim>\<open>String s\<close> that is handed to
  \<^verbatim>\<open>writeToFile\<close>. \<^verbatim>\<open>levelName\<close> (of the framework's \<^verbatim>\<open>LogHandler\<close>) and the
  rendering of \<^verbatim>\<open>"%p"\<close> are not part of the repository and are parameters.
  The assignments \<^verbatim>\<open>s = extractFileName(attr.file)\<close> and
  \<^verbatim>\<open>s = extractFuncName(attr.function, &n)\<close> replace what \<open>s\<close> held, and
  \<^verbatim>\<open>s.concat(s)\<close> appends \<open>s\<close> to itself; the length \<open>n\<close> is not used afterwards.
\<close>

definition renderLine ::
  "(LogLevel \<Rightarrow> string) \<Rightarrow> (int \<Rightarrow> string) \<Rightarrow>
   string option \<Rightarrow> LogLevel \<Rightarrow> string option \<Rightarrow> LogAttributes \<Rightarrow> string" where
  "renderLine levelName fmt_p msg level category attr =
     (let s = [];
          s = (if has_time attr then s @ fmt_010u (attr_time attr) @ '' '' else s);
          s = (case category of
                 Some c \<Rightarrow> s @ ''['' @ c @ ''] ''
               | None \<Rightarrow> s);
          s = (if has_file attr then
                 (let s = extractFileName (attr_file attr);
                      s = s @ s;
                      s = (if has_line attr
                           then s @ '':'' @ String_of_int (attr_line attr) else s)
                  in if has_function attr then s @ '', '' else s @ '': '')
               else s);
          s = (if has_function attr then
                 (let s = fst (extractFuncName (attr_function attr));
                      s = s @ s
                  in s @ ''(): '')
               else s);
          s = s @ levelName level @ '': '';
          s = (case msg of
                 Some m \<Rightarrow> s @ m
               | None \<Rightarrow> s);
          s = (if has_code attr \<or> has_details attr then
                 (let s = s @ '' ['';
                      s = (if has_code attr
                           then s @ ''code = '' @ fmt_p (attr_code attr) else s);
                      s = (if has_details attr then
                             (let s = (if has_code attr then s @ '', '' else s)
                              in s @ ''details = '' @ attr_details attr)
                           else s)
                  in s @ '']'')
               else s)
      in s @ [CHR 0x0A, CHR 0x0D])"

subsection \<open>The handler object, the process and the filesystem\<close>

text \<open>The private members of \<^verbatim>\<open>class FSLogHandler\<close> (\<open>m_x\<close> stands for \<^verbatim>\<open>_x\<close>).\<close>

record FSLogHandler =
  m_enabled :: bool
  m_fd :: int
  m_open :: bool
  m_path :: string
  m_bytes_queued :: "32 word"
  m_max_bytes_queued :: "32 word"
  m_fsync_timeout_s :: "32 word"

text \<open>The system calls the handler issues, in the order it issues them.\<close>

datatype syscall =
    Sys_stat string
  | Sys_fstat int
  | Sys_unlink string
  | Sys_mkdir string
  | Sys_open_wronly_creat_trunc string
  | Sys_open_rdonly string
  | Sys_write int string
  | Sys_fsync int
  | Sys_close int
  | Sys_lseek int int
  | Sys_read int

text \<open>
  What the \<^verbatim>\<open>DEBUG_PRINT*\<close> and \<^verbatim>\<open>TRACE_PRINT*\<close> macros send to \<^verbatim>\<open>Serial\<close>, one
  constructor for each place that prints.
\<close>

datatype diag =
    Debug_write_failed
  | Debug_loop_fsync "32 word"
  | Debug_open_failed string
  | Debug_dump_open_failed string
  | Debug_dir_exists string
  | Debug_dir_file_in_the_way string
  | Debug_dir_stat_failed
  | Debug_dir_created string
  | Debug_dir_mkdir_failed
  | Trace_closed string
  | Trace_cleared string
  | Trace_write string
  | Trace_opened string
  | Trace_fileInit_false string

text \<open>
  Everything a member function can read or change: the object, the two function-local
  statics (\<^verbatim>\<open>last_ran\<close> of \<^verbatim>\<open>loop\<close>, \<open>None\<close> until its first call initialises it, and
  \<^verbatim>\<open>f_cursor\<close> of \<^verbatim>\<open>dump\<close>), the regular files of the filesystem by path, the trace
  of system calls, the serial output of the debug macros, and the value that
  \<^verbatim>\<open>FS_LOG_HANDLER_DEBUG_LEVEL\<close> was compiled with (the header defines it as 0 and allows
  0, 1 or 2).
\<close>

record world =
  handler :: FSLogHandler
  last_ran :: "32 word option"
  f_cursor :: int
  files :: "string \<Rightarrow> string option"
  calls :: "syscall list"
  serial :: "diag list"
  FS_LOG_HANDLER_DEBUG_LEVEL :: nat

definition sys :: "syscall \<Rightarrow> world \<Rightarrow> world" where
  "sys c w = w\<lparr>calls := calls w @ [c]\<rparr>"

definition DEBUG_PRINTLNF :: "diag \<Rightarrow> world \<Rightarrow> world" where
  "DEBUG_PRINTLNF d w =
     (if 0 < FS_LOG_HANDLER_DEBUG_LEVEL w then w\<lparr>serial := serial w @ [d]\<rparr> else w)"

definition TRACE_PRINTLNF :: "diag \<Rightarrow> world \<Rightarrow> world" where
  "TRACE_PRINTLNF d w =
     (if 1 < FS_LOG_HANDLER_DEBUG_LEVEL w then w\<lparr>serial := serial w @ [d]\<rparr> else w)"

definition TRACE_PRINTF :: "diag \<Rightarrow> world \<Rightarrow> world" where
  "TRACE_PRINTF d w =
     (if 1 < FS_LOG_HANDLER_DEBUG_LEVEL w then w\<lparr>serial := serial w @ [d]\<rparr> else w)"

text \<open>\<^verbatim>\<open>unlink(p)\<close>: the file is gone afterwards, whether it was there or not.\<close>

definition sys_unlink :: "string \<Rightarrow> world \<Rightarrow> world" where
  "sys_unlink p w = (sys (Sys_unlink p) w)\<lparr>files := (files w)(p := None)\<rparr>"

text \<open>
  \<^verbatim>\<open>open(p, O_WRONLY | O_CREAT | O_TRUNC)\<close> answering \<open>r\<close>: unless it failed (\<open>-1\<close>)
  the file exists and is empty afterwards.
\<close>

definition sys_open_trunc :: "string \<Rightarrow> int \<Rightarrow> world \<Rightarrow> world" where
  "sys_open_trunc p r w =
     (sys (Sys_open_wronly_creat_trunc p) w)
       \<lparr>files := (if r = -1 then files w else (files w)(p \<mapsto> []))\<rparr>"

text \<open>
  \<^verbatim>\<open>write(fd, message, length)\<close> answering \<open>r\<close> on the descriptor that was opened for
  path \<open>p\<close>: the first \<open>r\<close> bytes go to the end of the file; nothing is written when
  the call failed.
\<close>

definition sys_write :: "int \<Rightarrow> string \<Rightarrow> string \<Rightarrow> int \<Rightarrow> world \<Rightarrow> world" where
  "sys_write fd p message r w =
     (sys (Sys_write fd message) w)
       \<lparr>files := (if r < 0 then files w
                  else (case files w p of
                          None \<Rightarrow> files w
                        | Some c \<Rightarrow> (files w)(p \<mapsto> c @ take (nat r) message)))\<rparr>"

text \<open>
  \<^verbatim>\<open>stat\<close> and \<^verbatim>\<open>fstat\<close> fill \<^verbatim>\<open>statbuf\<close> only when they succeed; \<open>st0\<close> is what
  the uninitialised \<^verbatim>\<open>statbuf.st_size\<close> held before the call.
\<close>

definition st_size_after :: "world \<Rightarrow> string \<Rightarrow> int \<Rightarrow> int" where
  "st_size_after w p st0 =
     (case files w p of
        None \<Rightarrow> st0
      | Some c \<Rightarrow> int (length c))"

subsection \<open>Constructor, setters, syncAndClose, getLogSize, clearLogs\<close>

definition configureFsync :: "32 word \<Rightarrow> 32 word \<Rightarrow> FSLogHandler \<Rightarrow> FSLogHandler" where
  "configureFsync max_bytes timeout_s h =
     h\<lparr>m_max_bytes_queued := max_bytes, m_fsync_timeout_s := timeout_s\<rparr>"

definition enable :: "bool \<Rightarrow> FSLogHandler \<Rightarrow> FSLogHandler" where
  "enable en h = h\<lparr>m_enabled := en\<rparr>"

definition getPath :: "FSLogHandler \<Rightarrow> string" where
  "getPath h = m_path h"

text \<open>
  The constructor; the two thresholds have no value of their own before
  \<^verbatim>\<open>configureFsync(4096, 10)\<close> sets them. Registering with the framework's
  \<^verbatim>\<open>LogManager\<close> (and leaving it in the destructor) touches nothing modelled here.
\<close>

definition FSLogHandler_ctor :: "string \<Rightarrow> bool \<Rightarrow> FSLogHandler" where
  "FSLogHandler_ctor filename enable_now =
     configureFsync 4096 10
       \<lparr>m_enabled = enable_now, m_fd = -1, m_open = False,
        m_path = ''/log/'' @ filename @ ''.log'', m_bytes_queued = 0,
        m_max_bytes_queued = 0, m_fsync_timeout_s = 0\<rparr>"

definition syncAndClose :: "world \<Rightarrow> world" where
  "syncAndClose w =
     (let h = handler w in
      if m_open h then
        (let w = sys (Sys_fsync (m_fd h)) w;
             w = sys (Sys_close (m_fd h)) w;
             w = w\<lparr>handler := (handler w)\<lparr>m_bytes_queued := 0\<rparr>\<rparr>;
             w = w\<lparr>handler := (handler w)\<lparr>m_open := False\<rparr>\<rparr>
         in TRACE_PRINTLNF (Trace_closed (m_path h)) w)
      else w)"

definition getLogSize :: "int \<Rightarrow> world \<Rightarrow> int \<times> world" where
  "getLogSize st0 w =
     (let h = handler w in
      if m_open h
      then (st_size_after w (m_path h) st0, sys (Sys_fstat (m_fd h)) w)
      else (st_size_after w (m_path h) st0, sys (Sys_stat (m_path h)) w))"

definition clearLogs :: "world \<Rightarrow> world" where
  "clearLogs w =
     (let w = syncAndClose w;
          w = sys_unlink (getPath (handler w)) w
      in TRACE_PRINTLNF (Trace_cleared (m_path (handler w))) w)"

subsection \<open>writeToFile and loop\<close>

text \<open>\<open>write_result\<close> is what \<^verbatim>\<open>::write\<close> answers.\<close>

definition writeToFile :: "int \<Rightarrow> string \<Rightarrow> world \<Rightarrow> world" where
  "writeToFile write_result message w =
     (let h = handler w;
          w = sys_write (m_fd h) (m_path h) message write_result w;
          result = write_result
      in if result = -1 then DEBUG_PRINTLNF Debug_write_failed w
         else
           (let w = w\<lparr>handler :=
                      (handler w)\<lparr>m_bytes_queued :=
                         m_bytes_queued (handler w) + of_nat (length message)\<rparr>\<rparr>
            in TRACE_PRINTF (Trace_write message) w))"

text \<open>
  \<^verbatim>\<open>loop()\<close>, with \<open>uptime\<close> what \<^verbatim>\<open>System.uptime()\<close> answers during the call. The
  static \<^verbatim>\<open>last_ran\<close> is initialised to it by the first call.
\<close>

definition loop :: "32 word \<Rightarrow> world \<Rightarrow> world" where
  "loop uptime w =
     (let t = (case last_ran w of
                 None \<Rightarrow> uptime
               | Some t \<Rightarrow> t);
          w = w\<lparr>last_ran := Some t\<rparr>;
          h = handler w
      in if m_open h then
           (if (uptime - t > 10 \<and> m_bytes_queued h > 0)
               \<or> m_bytes_queued h > 4096
            then
              (let w = DEBUG_PRINTLNF (Debug_loop_fsync (m_bytes_queued h)) w;
                   w = sys (Sys_fsync (m_fd h)) w;
                   w = w\<lparr>handler := (handler w)\<lparr>m_bytes_queued := 0\<rparr>\<rparr>
               in w\<lparr>last_ran := Some uptime\<rparr>)
            else w)
         else w)"

subsection \<open>createDirIfNecessary, fileInit and logMessage\<close>

text \<open>
  What the filesystem answers during one call of \<^verbatim>\<open>logMessage\<close>: the result of
  \<^verbatim>\<open>stat("/log")\<close>, whether it found a directory, whether \<^verbatim>\<open>errno\<close> was
  \<^verbatim>\<open>ENOENT\<close> when it failed, and the results of \<^verbatim>\<open>mkdir\<close>, \<^verbatim>\<open>open\<close> and
  \<^verbatim>\<open>write\<close>.
\<close>

record env =
  stat_result :: int
  st_mode_is_dir :: bool
  errno_is_ENOENT :: bool
  mkdir_result :: int
  open_result :: int
  write_result :: int

definition createDirIfNecessary :: "env \<Rightarrow> string \<Rightarrow> world \<Rightarrow> bool \<times> world" where
  "createDirIfNecessary e p w =
     (let w = sys (Sys_stat p) w;
          result = stat_result e
      in case (if result = 0 then
                 (if st_mode_is_dir e
                  then (Some True, DEBUG_PRINTLNF (Debug_dir_exists p) w)
                  else (None, sys_unlink p (DEBUG_PRINTLNF (Debug_dir_file_in_the_way p) w)))
               else
                 (if errno_is_ENOENT e
                  then (None, w)
                  else (Some False, DEBUG_PRINTLNF Debug_dir_stat_failed w))) of
           (Some returned, w) \<Rightarrow> (returned, w)
         | (None, w) \<Rightarrow>
             (let w = sys (Sys_mkdir p) w;
                  result = mkdir_result e
              in if result = 0
                 then (True, DEBUG_PRINTLNF (Debug_dir_created p) w)
                 else (False, DEBUG_PRINTLNF Debug_dir_mkdir_failed w)))"

definition fileInit :: "env \<Rightarrow> world \<Rightarrow> bool \<times> world" where
  "fileInit e w =
     (if \<not> m_open (handler w) \<or> m_fd (handler w) = -1 then
        (let w = snd (createDirIfNecessary e ''/log'' w);
             w = sys_open_trunc (m_path (handler w)) (open_result e) w;
             w = w\<lparr>handler := (handler w)\<lparr>m_fd := open_result e\<rparr>\<rparr>
         in if m_fd (handler w) = -1 then
              (let w = DEBUG_PRINTLNF (Debug_open_failed (m_path (handler w))) w
               in (False, w\<lparr>handler := (handler w)\<lparr>m_open := False\<rparr>\<rparr>))
            else
              (let w = TRACE_PRINTLNF (Trace_opened (m_path (handler w))) w
               in (True, w\<lparr>handler := (handler w)\<lparr>m_open := True\<rparr>\<rparr>)))
      else (True, w))"

text \<open>One call of \<^verbatim>\<open>logMessage\<close>: its four arguments and the filesystem's answers.\<close>

record log_call =
  call_msg :: "string option"
  call_level :: LogLevel
  call_category :: "string option"
  call_attr :: LogAttributes
  call_env :: env

definition logMessage ::
  "(LogLevel \<Rightarrow> string) \<Rightarrow> (int \<Rightarrow> string) \<Rightarrow> log_call \<Rightarrow> world \<Rightarrow> world" where
  "logMessage levelName fmt_p c w =
     (if \<not> m_enabled (handler w) then w
      else
        (case fileInit (call_env c) w of
           (False, w) \<Rightarrow> TRACE_PRINTLNF (Trace_fileInit_false (m_path (handler w))) w
         | (True, w) \<Rightarrow>
             writeToFile (write_result (call_env c))
               (renderLine levelName fmt_p
                  (call_msg c) (call_level c) (call_category c) (call_attr c)) w))"

subsection \<open>dump\<close>

text \<open>
  \<^verbatim>\<open>read(fd, buf, n)\<close> at offset \<open>pos\<close> of the file the descriptor stands for
  (\<open>None\<close>: the descriptor is not an open file, the call answers \<open>-1\<close>).
\<close>

definition sys_read :: "string option \<Rightarrow> nat \<Rightarrow> nat \<Rightarrow> int \<times> string" where
  "sys_read rf pos n =
     (case rf of
        None \<Rightarrow> (-1, [])
      | Some c \<Rightarrow> (int (length (take n (drop pos c))), take n (drop pos c)))"

text \<open>
  \<^verbatim>\<open>buf[bytes] = 0\<close> with \<open>bytes\<close> outside the 1024 bytes of \<^verbatim>\<open>buf\<close> has no defined
  behaviour; the model stops there and reports the index, the stream and the state
  reached.
\<close>

datatype dump_error = Buffer_index_out_of_range int string world

text \<open>
  The \<^verbatim>\<open>do ... while (bytes)\<close> loop. \<^verbatim>\<open>stream.printf("%s", buf)\<close> prints the bytes
  read up to the first NUL, which is at \<^verbatim>\<open>buf[bytes]\<close> at the latest.
\<close>

function dump_loop ::
  "int \<Rightarrow> string option \<Rightarrow> nat \<Rightarrow> string \<Rightarrow> world \<Rightarrow> dump_error + (string \<times> world)" where
  "dump_loop dump_fd rf pos stream w =
     (case sys_read rf pos 1023 of
        (bytes, data) \<Rightarrow>
          (let w = sys (Sys_read dump_fd) w;
               w = w\<lparr>f_cursor := f_cursor w + bytes\<rparr>
           in if bytes < 0 \<or> 1024 \<le> bytes
              then Inl (Buffer_index_out_of_range bytes stream w)
              else
                (let stream = stream @ takeWhile (\<lambda>ch. ch \<noteq> CHR 0x00) data
                 in if bytes = 0 then Inr (stream, w)
                    else dump_loop dump_fd rf (pos + nat bytes) stream w)))"
  by pat_completeness auto
termination
proof (relation "measure (\<lambda>(dump_fd, rf, pos, stream, w).
                    case rf of None \<Rightarrow> 0 | Some c \<Rightarrow> length c - pos)")
  show "wf (measure (\<lambda>(dump_fd, rf, pos, stream, w).
                    case rf of None \<Rightarrow> 0 | Some c \<Rightarrow> length c - pos))"
    by simp
next
  fix dump_fd :: int and rf :: "string option" and pos :: nat and stream :: string
    and w x :: world and bytes :: int and data xa :: string and xb :: world
  assume "(bytes, data) = sys_read rf pos 1023" and "\<not> (bytes < 0 \<or> 1024 \<le> bytes)"
    and "bytes \<noteq> 0"
  then show "((dump_fd, rf, pos + nat bytes, xa, xb), dump_fd, rf, pos, stream, w)
             \<in> measure (\<lambda>(dump_fd, rf, pos, stream, w).
                    case rf of None \<Rightarrow> 0 | Some c \<Rightarrow> length c - pos)"
    by (cases rf) (auto simp: sys_read_def)
qed

declare dump_loop.simps [simp del]

text \<open>
  \<^verbatim>\<open>dump(stream, read_from_beginning)\<close>; \<open>fd_new\<close> is the descriptor \<^verbatim>\<open>open\<close> hands
  out when it succeeds. Opening a path that names no file answers \<open>-1\<close>.
  \<^verbatim>\<open>lseek\<close> to a negative offset fails and leaves the offset at 0. The stream is the
  text printed to it so far. \<^verbatim>\<open>Particle.process()\<close> between two chunks touches nothing
  modelled here.
\<close>

definition dump :: "int \<Rightarrow> string \<Rightarrow> bool \<Rightarrow> world \<Rightarrow> dump_error + (string \<times> world)" where
  "dump fd_new stream read_from_beginning w =
     (let p = m_path (handler w);
          dump_fd = (if files w p = None then -1 else fd_new);
          w = sys (Sys_open_rdonly p) w
      in if dump_fd = 0
         then Inr (stream, DEBUG_PRINTLNF (Debug_dump_open_failed p) w)
         else
           (let rf = (if dump_fd < 0 then None else files w p);
                w = (if read_from_beginning then w\<lparr>f_cursor := 0\<rparr>
                     else sys (Sys_lseek dump_fd (f_cursor w)) w);
                pos = (if read_from_beginning \<or> f_cursor w < 0 then 0 else nat (f_cursor w))
            in case dump_loop dump_fd rf pos stream w of
                 Inl e \<Rightarrow> Inl e
               | Inr (stream, w) \<Rightarrow> Inr (stream, sys (Sys_close dump_fd) w)))"

subsection \<open>Runs of the handler\<close>

definition logMessages ::
  "(LogLevel \<Rightarrow> string) \<Rightarrow> (int \<Rightarrow> string) \<Rightarrow> log_call list \<Rightarrow> world \<Rightarrow> world" where
  "logMessages levelName fmt_p cs w = foldl (\<lambda>w c. logMessage levelName fmt_p c w) w cs"

definition loops :: "32 word list \<Rightarrow> world \<Rightarrow> world" where
  "loops uptimes w = foldl (\<lambda>w uptime. loop uptime w) w uptimes"

text \<open>The calls a program can make on a handler once it is constructed.\<close>

datatype operation =
    Op_logMessage log_call
  | Op_loop "32 word"
  | Op_clearLogs
  | Op_configureFsync "32 word" "32 word"
  | Op_enable bool
  | Op_destructor

fun step ::
  "(LogLevel \<Rightarrow> string) \<Rightarrow> (int \<Rightarrow> string) \<Rightarrow> world \<Rightarrow> operation \<Rightarrow> world" where
  "step levelName fmt_p w (Op_logMessage c) = logMessage levelName fmt_p c w"
| "step levelName fmt_p w (Op_loop uptime) = loop uptime w"
| "step levelName fmt_p w Op_clearLogs = clearLogs w"
| "step levelName fmt_p w (Op_configureFsync max_bytes timeout_s) =
     w\<lparr>handler := configureFsync max_bytes timeout_s (handler w)\<rparr>"
| "step levelName fmt_p w (Op_enable en) = w\<lparr>handler := enable en (handler w)\<rparr>"
| "step levelName fmt_p w Op_destructor = syncAndClose w"

definition run ::
  "(LogLevel \<Rightarrow> string) \<Rightarrow> (int \<Rightarrow> string) \<Rightarrow> operation list \<Rightarrow> world \<Rightarrow> world" where
  "run levelName fmt_p ops w = foldl (step levelName fmt_p) w ops"

text \<open>
  A run against the clock: each call is made at an uptime (a \<^verbatim>\<open>loop\<close> call is listed
  with the uptime it reads). Beside the state, the run keeps the uptime of the last call
  that issued an \<^verbatim>\<open>fsync\<close>, whichever member function it was.
\<close>

fun is_fsync :: "syscall \<Rightarrow> bool" where
  "is_fsync (Sys_fsync fd) = True"
| "is_fsync c = False"

fun timed_step ::
  "(LogLevel \<Rightarrow> string) \<Rightarrow> (int \<Rightarrow> string) \<Rightarrow>
   world \<times> 32 word option \<Rightarrow> 32 word \<times> operation \<Rightarrow> world \<times> 32 word option" where
  "timed_step levelName fmt_p (w, last_sync) (uptime, x) =
     (let w' = step levelName fmt_p w x
      in (w', if list_ex is_fsync (drop (length (calls w)) (calls w'))
              then Some uptime else last_sync))"

definition timed_run ::
  "(LogLevel \<Rightarrow> string) \<Rightarrow> (int \<Rightarrow> string) \<Rightarrow>
   (32 word \<times> operation) list \<Rightarrow> world \<Rightarrow> world \<times> 32 word option" where
  "timed_run levelName fmt_p txs w = foldl (timed_step levelName fmt_p) (w, None) txs"

subsection \<open>Notions the statements below use\<close>

text \<open>The process right after the handler object is constructed on a filesystem \<open>fs\<close>.\<close>

definition start_world :: "string \<Rightarrow> bool \<Rightarrow> (string \<Rightarrow> string option) \<Rightarrow> nat \<Rightarrow> world" where
  "start_world filename enable_now fs level =
     \<lparr>handler = FSLogHandler_ctor filename enable_now, last_ran = None, f_cursor = 0,
      files = fs, calls = [], serial = [], FS_LOG_HANDLER_DEBUG_LEVEL = level\<rparr>"

text \<open>The two facts about the members that every public call is meant to keep.\<close>

definition handler_inv :: "FSLogHandler \<Rightarrow> bool" where
  "handler_inv h \<longleftrightarrow>
     (\<not> m_open h \<longrightarrow> m_bytes_queued h = 0) \<and> (m_open h \<longrightarrow> m_fd h \<noteq> -1)"

fun is_open_trunc :: "syscall \<Rightarrow> bool" where
  "is_open_trunc (Sys_open_wronly_creat_trunc p) = True"
| "is_open_trunc c = False"

text \<open>The bytes one call of \<^verbatim>\<open>logMessage\<close> gets into the file when the file is open.\<close>

definition written ::
  "(LogLevel \<Rightarrow> string) \<Rightarrow> (int \<Rightarrow> string) \<Rightarrow> log_call \<Rightarrow> string" where
  "written levelName fmt_p c =
     (if write_result (call_env c) < 0 then []
      else take (nat (write_result (call_env c)))
             (renderLine levelName fmt_p
                (call_msg c) (call_level c) (call_category c) (call_attr c)))"

subsection \<open>Sample inputs\<close>

definition sample_levelName :: "LogLevel \<Rightarrow> string" where
  "sample_levelName level =
     (case level of
        LOG_LEVEL_ALL \<Rightarrow> ''TRACE''
      | LOG_LEVEL_TRACE \<Rightarrow> ''TRACE''
      | LOG_LEVEL_INFO \<Rightarrow> ''INFO''
      | LOG_LEVEL_WARN \<Rightarrow> ''WARN''
      | LOG_LEVEL_ERROR \<Rightarrow> ''ERROR''
      | LOG_LEVEL_PANIC \<Rightarrow> ''PANIC''
      | LOG_LEVEL_NONE \<Rightarrow> ''NONE'')"

definition sample_fmt_p :: "int \<Rightarrow> string" where
  "sample_fmt_p code = ''0x'' @ dec (nat code)"

definition sample_attr :: LogAttributes where
  "sample_attr =
     \<lparr>has_file = False, has_line = False, has_function = False, has_time = False,
      has_code = False, has_details = False,
      attr_file = [], attr_line = 0, attr_function = [], attr_time = 0,
      attr_code = 0, attr_details = []\<rparr>"

definition sample_env :: env where
  "sample_env =
     \<lparr>stat_result = 0, st_mode_is_dir = True, errno_is_ENOENT = False,
      mkdir_result = 0, open_result = 3, write_result = 13\<rparr>"

definition sample_call :: log_call where
  "sample_call =
     \<lparr>call_msg = Some ''hello'', call_level = LOG_LEVEL_INFO, call_category = None,
      call_attr = sample_attr, call_env = sample_env\<rparr>"

text \<open>An open handler with \<open>n\<close> bytes pending, last synced by \<^verbatim>\<open>loop\<close> at uptime \<open>t\<close>.\<close>

definition open_world :: "32 word \<Rightarrow> 32 word \<Rightarrow> world" where
  "open_world n t =
     \<lparr>handler = (FSLogHandler_ctor ''test'' True)\<lparr>m_fd := 3, m_open := True, m_bytes_queued := n\<rparr>,
      last_ran = Some t, f_cursor = 0,
      files = [''/log/test.log'' \<mapsto> []], calls = [], serial = [],
      FS_LOG_HANDLER_DEBUG_LEVEL = 0\<rparr>"

text \<open>
  A fresh handler that logs a line at uptime 0, is ticked at 0 and at 12, is cleared at
  100 and logs a line again at 100.
\<close>

definition sample_timed_run :: "world \<times> 32 word option" where
  "sample_timed_run =
     timed_run sample_levelName sample_fmt_p
       [(0, Op_logMessage sample_call), (0, Op_loop 0), (12, Op_loop 12),
        (100, Op_clearLogs), (100, Op_logMessage sample_call)]
       (start_world ''test'' True Map.empty 0)"

section \<open>Properties\<close>

subsection \<open>What the small steps leave alone\<close>

lemma sys_proj [simp]:
  "handler (sys c w) = handler w" "files (sys c w) = files w" "serial (sys c w) = serial w"
  "last_ran (sys c w) = last_ran w" "f_cursor (sys c w) = f_cursor w"
  "FS_LOG_HANDLER_DEBUG_LEVEL (sys c w) = FS_LOG_HANDLER_DEBUG_LEVEL w"
  "calls (sys c w) = calls w @ [c]"
  by (simp_all add: sys_def)

lemma DEBUG_proj [simp]:
  "handler (DEBUG_PRINTLNF d w) = handler w" "files (DEBUG_PRINTLNF d w) = files w"
  "calls (DEBUG_PRINTLNF d w) = calls w"
  "last_ran (DEBUG_PRINTLNF d w) = last_ran w" "f_cursor (DEBUG_PRINTLNF d w) = f_cursor w"
  "FS_LOG_HANDLER_DEBUG_LEVEL (DEBUG_PRINTLNF d w) = FS_LOG_HANDLER_DEBUG_LEVEL w"
  by (simp_all add: DEBUG_PRINTLNF_def)

lemma TRACE_proj [simp]:
  "handler (TRACE_PRINTLNF d w) = handler w" "files (TRACE_PRINTLNF d w) = files w"
  "calls (TRACE_PRINTLNF d w) = calls w"
  "last_ran (TRACE_PRINTLNF d w) = last_ran w" "f_cursor (TRACE_PRINTLNF d w) = f_cursor w"
  "FS_LOG_HANDLER_DEBUG_LEVEL (TRACE_PRINTLNF d w) = FS_LOG_HANDLER_DEBUG_LEVEL w"
  by (simp_all add: TRACE_PRINTLNF_def)

lemma TRACE_PRINTF_proj [simp]:
  "handler (TRACE_PRINTF d w) = handler w" "files (TRACE_PRINTF d w) = files w"
  "calls (TRACE_PRINTF d w) = calls w"
  by (simp_all add: TRACE_PRINTF_def)

lemma sys_unlink_proj [simp]:
  "handler (sys_unlink p w) = handler w"
  "calls (sys_unlink p w) = calls w @ [Sys_unlink p]"
  "files (sys_unlink p w) = (files w)(p := None)"
  by (simp_all add: sys_unlink_def)

lemma createDir_proj [simp]:
  "handler (snd (createDirIfNecessary e p w)) = handler w"
  "filter is_open_trunc (calls (snd (createDirIfNecessary e p w))) = filter is_open_trunc (calls w)"
  by (simp_all add: createDirIfNecessary_def Let_def)

lemma logMessage_unfold:
  "logMessage levelName fmt_p c w =
     (if \<not> m_enabled (handler w) then w
      else if fst (fileInit (call_env c) w)
           then writeToFile (write_result (call_env c))
                  (renderLine levelName fmt_p (call_msg c) (call_level c) (call_category c) (call_attr c))
                  (snd (fileInit (call_env c) w))
           else TRACE_PRINTLNF (Trace_fileInit_false (m_path (handler (snd (fileInit (call_env c) w)))))
                  (snd (fileInit (call_env c) w)))"
  by (cases "fileInit (call_env c) w") (auto simp: logMessage_def)

subsection \<open>The rendered line\<close>

text \<open>
  Claim C1 expects every present field in the line, in the order timestamp, category,
  file, function, level, message, code and details, and a newline at the end. The code
  builds the timestamp and the category into \<open>s\<close> and then assigns the file name to
  \<open>s\<close>, and later the function name, so what was built before is lost; it appends
  \<open>s\<close> to itself, so the name stands twice; it never cuts the function string at the
  length \<^verbatim>\<open>extractFuncName\<close> computed, so the argument list stays; and it ends the
  line with line feed, carriage return. Three records with a time stamp of 12 and the
  category \<open>app\<close>: with a file and a line, with a function as well, and with neither
  (only then do the time stamp and the category reach the line).
\<close>

theorem renderLine_drops_earlier_fields:
  "renderLine sample_levelName sample_fmt_p (Some ''hello'') LOG_LEVEL_INFO (Some ''app'')
     (sample_attr\<lparr>has_time := True, attr_time := 12,
                  has_file := True, attr_file := ''src/main.cpp'',
                  has_line := True, attr_line := 42\<rparr>)
   = ''main.cppmain.cpp:42: INFO: hello'' @ [CHR 0x0A, CHR 0x0D]
   \<and> renderLine sample_levelName sample_fmt_p (Some ''hello'') LOG_LEVEL_INFO (Some ''app'')
     (sample_attr\<lparr>has_time := True, attr_time := 12,
                  has_file := True, attr_file := ''src/main.cpp'',
                  has_line := True, attr_line := 42,
                  has_function := True, attr_function := ''void setup(int x)''\<rparr>)
   = ''setup(int x)setup(int x)(): INFO: hello'' @ [CHR 0x0A, CHR 0x0D]
   \<and> renderLine sample_levelName sample_fmt_p (Some ''hello'') LOG_LEVEL_INFO (Some ''app'')
     (sample_attr\<lparr>has_time := True, attr_time := 12\<rparr>)
   = ''0000000012 [app] INFO: hello'' @ [CHR 0x0A, CHR 0x0D]"
  by code_simp

subsection \<open>The flush policy of loop\<close>

lemma loop_idle:
  "\<not> m_open (handler w) \<or> m_bytes_queued (handler w) = 0 \<Longrightarrow>
   loop uptime w = w\<lparr>last_ran := Some (case last_ran w of None \<Rightarrow> uptime | Some t \<Rightarrow> t)\<rparr>"
  by (auto simp: loop_def Let_def)

lemma loops_idle:
  "\<not> m_open (handler w) \<or> m_bytes_queued (handler w) = 0 \<Longrightarrow>
   loops uptimes w =
     (case uptimes of
        [] \<Rightarrow> w
      | u # us \<Rightarrow> w\<lparr>last_ran := Some (case last_ran w of None \<Rightarrow> u | Some t \<Rightarrow> t)\<rparr>)"
proof (induction uptimes arbitrary: w)
  case Nil
  then show ?case by (simp add: loops_def)
next
  case (Cons u us)
  let ?w1 = "w\<lparr>last_ran := Some (case last_ran w of None \<Rightarrow> u | Some t \<Rightarrow> t)\<rparr>"
  have 1: "loop u w = ?w1" using Cons.prems by (rule loop_idle)
  have "\<not> m_open (handler ?w1) \<or> m_bytes_queued (handler ?w1) = 0" using Cons.prems by simp
  from Cons.IH[OF this] have "loops us ?w1 = ?w1" by (cases us) simp_all
  then show ?case using 1 by (simp add: loops_def)
qed

lemma loop_decides:
  "m_open (handler w) \<Longrightarrow>
   (let h = handler w;
        t0 = (case last_ran w of None \<Rightarrow> uptime | Some t \<Rightarrow> t);
        w' = loop uptime w
    in if m_bytes_queued h > 4096 \<or> (m_bytes_queued h \<noteq> 0 \<and> uptime - t0 > 10)
       then calls w' = calls w @ [Sys_fsync (m_fd h)]
            \<and> handler w' = h\<lparr>m_bytes_queued := 0\<rparr>
            \<and> last_ran w' = Some uptime
            \<and> files w' = files w \<and> f_cursor w' = f_cursor w
            \<and> serial w' = serial w @ (if 0 < FS_LOG_HANDLER_DEBUG_LEVEL w
                                         then [Debug_loop_fsync (m_bytes_queued h)] else [])
       else w' = w\<lparr>last_ran := Some t0\<rparr>)"
  by (auto simp: loop_def Let_def sys_def DEBUG_PRINTLNF_def word_gt_0 split: option.splits)

text \<open>Only \<^verbatim>\<open>loop\<close> writes its static \<^verbatim>\<open>last_ran\<close>.\<close>

lemma last_ran_syncAndClose: "last_ran (syncAndClose w) = last_ran w"
  by (simp add: syncAndClose_def Let_def)

lemma last_ran_clearLogs: "last_ran (clearLogs w) = last_ran w"
  by (simp add: clearLogs_def Let_def sys_unlink_def last_ran_syncAndClose)

lemma last_ran_createDir: "last_ran (snd (createDirIfNecessary e p w)) = last_ran w"
  by (simp add: createDirIfNecessary_def Let_def sys_unlink_def)

lemma last_ran_fileInit: "last_ran (snd (fileInit e w)) = last_ran w"
  by (simp add: fileInit_def Let_def sys_open_trunc_def last_ran_createDir)

lemma last_ran_writeToFile: "last_ran (writeToFile r message w) = last_ran w"
  by (simp add: writeToFile_def Let_def sys_write_def TRACE_PRINTF_def)

lemma last_ran_logMessage: "last_ran (logMessage levelName fmt_p c w) = last_ran w"
  by (simp add: logMessage_unfold last_ran_fileInit last_ran_writeToFile)

lemma last_ran_step:
  "(\<forall>u. x \<noteq> Op_loop u) \<Longrightarrow> last_ran (step levelName fmt_p w x) = last_ran w"
  by (cases x)
    (simp_all add: last_ran_logMessage last_ran_clearLogs last_ran_syncAndClose)

text \<open>
  Claim C2 expects \<^verbatim>\<open>loop\<close> to compare against the values given to
  \<^verbatim>\<open>configureFsync\<close>. It compares against the literals 4096 and 10 and never reads
  \<^verbatim>\<open>_max_bytes_queued\<close> or \<^verbatim>\<open>_fsync_timeout_s\<close>: after
  \<^verbatim>\<open>configureFsync(100, 5)\<close>, with 200 bytes pending and 7 seconds after the last
  sync, no \<^verbatim>\<open>fsync\<close> is issued and the 200 bytes stay pending.
\<close>

theorem loop_ignores_configureFsync:
  "calls (loop 7 ((open_world 200 0)\<lparr>handler := configureFsync 100 5 (handler (open_world 200 0))\<rparr>)) = []
   \<and> m_bytes_queued (handler (loop 7
        ((open_world 200 0)\<lparr>handler := configureFsync 100 5 (handler (open_world 200 0))\<rparr>))) = 200"
  by (simp add: loop_def Let_def open_world_def configureFsync_def FSLogHandler_ctor_def)

text \<open>
  Claim C3 as it is written measures the time threshold from the last sync. \<^verbatim>\<open>loop\<close>
  measures it from its static \<^verbatim>\<open>last_ran\<close>, which only \<^verbatim>\<open>loop\<close> writes: the
  \<^verbatim>\<open>fsync\<close> of \<^verbatim>\<open>syncAndClose\<close> does not move it. In the sample run \<^verbatim>\<open>loop\<close>
  forces a sync at uptime 12, \<^verbatim>\<open>clearLogs\<close> syncs at uptime 100, and a line of 13 bytes
  is logged after it; the thresholds are at their defaults. A \<^verbatim>\<open>loop\<close> call at uptime
  102 forces a sync, two seconds after the last sync and with 13 bytes pending, because
  \<^verbatim>\<open>last_ran\<close> is still 12.
\<close>

theorem loop_syncs_soon_after_clearLogs:
  "snd sample_timed_run = Some 100
   \<and> m_open (handler (fst sample_timed_run))
   \<and> m_bytes_queued (handler (fst sample_timed_run)) = 13
   \<and> m_max_bytes_queued (handler (fst sample_timed_run)) = 4096
   \<and> m_fsync_timeout_s (handler (fst sample_timed_run)) = 10
   \<and> last_ran (fst sample_timed_run) = Some 12
   \<and> calls (loop 102 (fst sample_timed_run)) = calls (fst sample_timed_run) @ [Sys_fsync 3]"
  by code_simp

text \<open>
  Claim C3, amended: the time threshold is measured from \<^verbatim>\<open>last_ran\<close>, the uptime of
  the last sync that \<^verbatim>\<open>loop\<close> itself forced or, before it has forced one, of its first
  call. With the thresholds at their defaults (4096 bytes, 10 seconds), in a state where
  a closed file has nothing pending (which holds in every state the handler reaches),
  one call of \<^verbatim>\<open>loop\<close> at \<open>uptime\<close> does the following. If the pending bytes exceed
  the byte threshold, or bytes are pending and \<open>uptime\<close> minus \<^verbatim>\<open>last_ran\<close> (minus
  \<open>uptime\<close> itself on the first call) exceeds the time threshold, it issues exactly one
  \<^verbatim>\<open>fsync\<close> on the handler's descriptor, sets the pending counter to 0 and
  \<^verbatim>\<open>last_ran\<close> to \<open>uptime\<close>, prints its debug line if the debug level is above 0,
  and changes nothing else of the handler, the files or the dump cursor. Otherwise it
  changes nothing at all, except that a first call sets \<^verbatim>\<open>last_ran\<close> to \<open>uptime\<close>.
  Whenever the file is not open or nothing is pending, a sequence of \<^verbatim>\<open>loop\<close> calls,
  at whatever uptimes, changes nothing but that. And no call other than \<^verbatim>\<open>loop\<close>
  (\<^verbatim>\<open>logMessage\<close>, \<^verbatim>\<open>clearLogs\<close>, \<^verbatim>\<open>configureFsync\<close>, \<^verbatim>\<open>enable\<close>, the
  destructor) changes \<^verbatim>\<open>last_ran\<close>.
\<close>

theorem loop_flush_policy_defaults:
  assumes "m_max_bytes_queued (handler w) = 4096"
    and "m_fsync_timeout_s (handler w) = 10"
    and "\<not> m_open (handler w) \<longrightarrow> m_bytes_queued (handler w) = 0"
  shows "(let h = handler w;
              t0 = (case last_ran w of None \<Rightarrow> uptime | Some t \<Rightarrow> t);
              w' = loop uptime w
          in if m_bytes_queued h > m_max_bytes_queued h
                \<or> (m_bytes_queued h \<noteq> 0 \<and> uptime - t0 > m_fsync_timeout_s h)
             then calls w' = calls w @ [Sys_fsync (m_fd h)]
                  \<and> handler w' = h\<lparr>m_bytes_queued := 0\<rparr>
                  \<and> last_ran w' = Some uptime
                  \<and> files w' = files w \<and> f_cursor w' = f_cursor w
                  \<and> serial w' = serial w @ (if 0 < FS_LOG_HANDLER_DEBUG_LEVEL w
                                               then [Debug_loop_fsync (m_bytes_queued h)] else [])
             else w' = w\<lparr>last_ran := Some t0\<rparr>)
         \<and> (\<forall>uptimes. \<not> m_open (handler w) \<or> m_bytes_queued (handler w) = 0 \<longrightarrow>
               loops uptimes w =
                 (case uptimes of
                    [] \<Rightarrow> w
                  | u # us \<Rightarrow>
                      w\<lparr>last_ran := Some (case last_ran w of None \<Rightarrow> u | Some t \<Rightarrow> t)\<rparr>))
         \<and> (\<forall>x. (\<forall>u. x \<noteq> Op_loop u) \<longrightarrow>
               last_ran (step levelName fmt_p w x) = last_ran w)"
proof (intro conjI allI impI)
  show "let h = handler w;
              t0 = (case last_ran w of None \<Rightarrow> uptime | Some t \<Rightarrow> t);
              w' = loop uptime w
          in if m_bytes_queued h > m_max_bytes_queued h
                \<or> (m_bytes_queued h \<noteq> 0 \<and> uptime - t0 > m_fsync_timeout_s h)
             then calls w' = calls w @ [Sys_fsync (m_fd h)]
                  \<and> handler w' = h\<lparr>m_bytes_queued := 0\<rparr>
                  \<and> last_ran w' = Some uptime
                  \<and> files w' = files w \<and> f_cursor w' = f_cursor w
                  \<and> serial w' = serial w @ (if 0 < FS_LOG_HANDLER_DEBUG_LEVEL w
                                               then [Debug_loop_fsync (m_bytes_queued h)] else [])
             else w' = w\<lparr>last_ran := Some t0\<rparr>"
  proof (cases "m_open (handler w)")
    case True
    from loop_decides[OF this, of uptime] show ?thesis using assms(1,2) by simp
  next
    case False
    then have z: "m_bytes_queued (handler w) = 0" using assms(3) by simp
    have "loop uptime w = w\<lparr>last_ran := Some (case last_ran w of None \<Rightarrow> uptime | Some t \<Rightarrow> t)\<rparr>"
      using False by (intro loop_idle) simp
    then show ?thesis using z assms(1,2) by (simp add: Let_def)
  qed
next
  fix uptimes
  assume "\<not> m_open (handler w) \<or> m_bytes_queued (handler w) = 0"
  then show "loops uptimes w =
                 (case uptimes of
                    [] \<Rightarrow> w
                  | u # us \<Rightarrow>
                      w\<lparr>last_ran := Some (case last_ran w of None \<Rightarrow> u | Some t \<Rightarrow> t)\<rparr>)"
    by (rule loops_idle)
next
  fix x
  assume "\<forall>u. x \<noteq> Op_loop u"
  then show "last_ran (step levelName fmt_p w x) = last_ran w"
    by (rule last_ran_step)
qed

text \<open>
  The theorem at open handlers with the default thresholds and \<^verbatim>\<open>last_ran\<close> 0:
  5000 bytes pending at uptime 1 (synced, counter reset, \<^verbatim>\<open>last_ran\<close> 1); 1 byte
  pending at uptime 11 (synced) and at uptime 10 (nothing changes); nothing pending over
  three calls (nothing changes); and \<^verbatim>\<open>clearLogs\<close> leaves \<^verbatim>\<open>last_ran\<close> at 0.
\<close>

theorem loop_flush_policy_defaults_witness:
  "calls (loop 1 (open_world 5000 0)) = [Sys_fsync 3]
   \<and> m_bytes_queued (handler (loop 1 (open_world 5000 0))) = 0
   \<and> last_ran (loop 1 (open_world 5000 0)) = Some 1
   \<and> calls (loop 11 (open_world 1 0)) = [Sys_fsync 3]
   \<and> loop 10 (open_world 1 0) = open_world 1 0
   \<and> loops [1, 20, 300] (open_world 0 0) = open_world 0 0
   \<and> last_ran (step sample_levelName sample_fmt_p (open_world 0 0) Op_clearLogs) = Some 0"
proof -
  have d: "m_max_bytes_queued (handler (open_world n t)) = 4096"
          "m_fsync_timeout_s (handler (open_world n t)) = 10"
          "\<not> m_open (handler (open_world n t)) \<longrightarrow> m_bytes_queued (handler (open_world n t)) = 0"
    for n t
    by (simp_all add: open_world_def FSLogHandler_ctor_def configureFsync_def)
  have v: "m_bytes_queued (handler (open_world n t)) = n" "m_fd (handler (open_world n t)) = 3"
     "last_ran (open_world n t) = Some t" "calls (open_world n t) = []"
     "(open_world n t)\<lparr>last_ran := Some t\<rparr> = open_world n t" for n t
    by (simp_all add: open_world_def FSLogHandler_ctor_def configureFsync_def)
  have n: "\<forall>u. Op_clearLogs \<noteq> Op_loop u" by simp
  have a: "calls (loop 1 (open_world 5000 0)) = [Sys_fsync 3]
      \<and> m_bytes_queued (handler (loop 1 (open_world 5000 0))) = 0
      \<and> last_ran (loop 1 (open_world 5000 0)) = Some 1"
    using loop_flush_policy_defaults[OF d, of 5000 0 1] by (simp add: v d Let_def)
  have b: "calls (loop 11 (open_world 1 0)) = [Sys_fsync 3]"
    using loop_flush_policy_defaults[OF d, of 1 0 11] by (simp add: v d Let_def)
  have c: "loop 10 (open_world 1 0) = open_world 1 0"
    using loop_flush_policy_defaults[OF d, of 1 0 10] by (simp add: v d Let_def)
  have e: "loops [1, 20, 300] (open_world 0 0) = open_world 0 0
      \<and> last_ran (step sample_levelName sample_fmt_p (open_world 0 0) Op_clearLogs) = Some 0"
  proof -
    from loop_flush_policy_defaults[OF d, of 0 0 1 sample_levelName sample_fmt_p]
    have 1: "\<forall>uptimes. \<not> m_open (handler (open_world 0 0))
                \<or> m_bytes_queued (handler (open_world 0 0)) = 0 \<longrightarrow>
               loops uptimes (open_world 0 0) =
                 (case uptimes of
                    [] \<Rightarrow> open_world 0 0
                  | u # us \<Rightarrow>
                      (open_world 0 0)\<lparr>last_ran := Some (case last_ran (open_world 0 0) of
                                                           None \<Rightarrow> u | Some t \<Rightarrow> t)\<rparr>)"
      and 2: "\<forall>x. (\<forall>u. x \<noteq> Op_loop u) \<longrightarrow>
               last_ran (step sample_levelName sample_fmt_p (open_world 0 0) x)
                 = last_ran (open_world 0 0)"
      by blast+
    from 2 n have 3: "last_ran (step sample_levelName sample_fmt_p (open_world 0 0) Op_clearLogs)
                 = last_ran (open_world 0 0)"
      by blast
    from 1[rule_format, of "[1, 20, 300]"] 3
    show ?thesis by (simp add: v)
  qed
  show ?thesis using a b c e by simp
qed

subsection \<open>dump\<close>

lemma takeWhile_no_NUL:
  "CHR 0x00 \<notin> set data \<Longrightarrow> takeWhile (\<lambda>ch. ch \<noteq> CHR 0x00) data = data"
  by (induction data) auto

text \<open>
  On a readable file without NUL bytes the loop hands the rest of the file to the stream
  and moves the cursor static by as many bytes.
\<close>

lemma dump_loop_reads_rest:
  "CHR 0x00 \<notin> set c \<Longrightarrow> pos \<le> length c \<Longrightarrow>
   \<exists>w'. dump_loop dump_fd (Some c) pos stream w = Inr (stream @ drop pos c, w')
        \<and> f_cursor w' = f_cursor w + int (length c - pos)
        \<and> handler w' = handler w \<and> files w' = files w \<and> serial w' = serial w"
proof (induction dump_fd "Some c" pos stream w rule: dump_loop.induct)
  case (1 dump_fd pos stream w)
  let ?data = "take 1023 (drop pos c)"
  let ?w1 = "(sys (Sys_read dump_fd) w)\<lparr>f_cursor := f_cursor (sys (Sys_read dump_fd) w) + int (length ?data)\<rparr>"
  have rd: "sys_read (Some c) pos 1023 = (int (length ?data), ?data)"
    by (simp add: sys_read_def)
  have nn: "CHR 0x00 \<notin> set ?data"
    using "1.prems"(1) by (meson in_set_dropD in_set_takeD)
  have tw: "takeWhile (\<lambda>ch. ch \<noteq> CHR 0x00) ?data = ?data"
    using nn by (rule takeWhile_no_NUL)
  show ?case
  proof (cases "length ?data = 0")
    case True
    then have "pos = length c" using "1.prems"(2) by auto
    then show ?thesis
      by (subst dump_loop.simps) (simp add: sys_read_def sys_def)
  next
    case False
    have le: "pos + length ?data \<le> length c" using "1.prems"(2) by auto
    have bnd: "\<not> (int (length ?data) < 0 \<or> 1024 \<le> int (length ?data))" by auto
    have ne: "int (length ?data) \<noteq> 0" using False by simp
    from "1.hyps"[OF rd[symmetric] refl refl bnd refl ne "1.prems"(1)] le
    obtain w' where
      r: "dump_loop dump_fd (Some c) (pos + nat (int (length ?data))) (stream @ takeWhile (\<lambda>ch. ch \<noteq> CHR 0x00) ?data) ?w1
          = Inr ((stream @ takeWhile (\<lambda>ch. ch \<noteq> CHR 0x00) ?data) @ drop (pos + nat (int (length ?data))) c, w')"
      and c: "f_cursor w' = f_cursor ?w1 + int (length c - (pos + nat (int (length ?data))))"
      and h: "handler w' = handler ?w1" "files w' = files ?w1" "serial w' = serial ?w1"
      by auto
    have split: "?data @ drop (pos + length ?data) c = drop pos c"
    proof -
      have "drop (pos + length ?data) c = drop (length ?data) (drop pos c)"
        by (simp add: add.commute)
      moreover have "length ?data = min (length (drop pos c)) 1023" by simp
      ultimately show ?thesis
        by (metis append_take_drop_id drop_all min.cobounded1 min.commute take_all linear min_def)
    qed
    have "dump_loop dump_fd (Some c) pos stream w = Inr (stream @ drop pos c, w')"
      using r False split by (subst dump_loop.simps) (simp add: sys_read_def Let_def tw)
    moreover have "f_cursor w' = f_cursor w + int (length c - pos)"
      using c le by (simp add: sys_def)
    ultimately show ?thesis using h by (auto simp: sys_def)
  qed
qed

lemma dump_from_beginning:
  assumes "files w (m_path (handler w)) = Some c" and "CHR 0x00 \<notin> set c" and "0 < fd_new"
  shows "\<exists>w'. dump fd_new stream True w = Inr (stream @ c, w')
            \<and> f_cursor w' = int (length c) \<and> handler w' = handler w \<and> files w' = files w"
proof -
  let ?w0 = "(sys (Sys_open_rdonly (m_path (handler w))) w)\<lparr>f_cursor := 0\<rparr>"
  from dump_loop_reads_rest[OF assms(2), of 0 fd_new stream ?w0]
  obtain w' where r: "dump_loop fd_new (Some c) 0 stream ?w0 = Inr (stream @ c, w')"
    and p: "f_cursor w' = int (length c)" "handler w' = handler w" "files w' = files w"
    by (auto simp: sys_def)
  show ?thesis using assms(1,3) r p
    by (simp add: dump_def Let_def sys_def)
qed

lemma dump_incremental:
  assumes "files w (m_path (handler w)) = Some c" and "CHR 0x00 \<notin> set c" and "0 < fd_new"
    and "0 \<le> f_cursor w" and "nat (f_cursor w) \<le> length c"
  shows "\<exists>w'. dump fd_new stream False w = Inr (stream @ drop (nat (f_cursor w)) c, w')
            \<and> f_cursor w' = int (length c) \<and> handler w' = handler w \<and> files w' = files w"
proof -
  let ?w0 = "sys (Sys_lseek fd_new (f_cursor w)) (sys (Sys_open_rdonly (m_path (handler w))) w)"
  from dump_loop_reads_rest[OF assms(2,5), of fd_new stream ?w0]
  obtain w' where r: "dump_loop fd_new (Some c) (nat (f_cursor w)) stream ?w0
        = Inr (stream @ drop (nat (f_cursor w)) c, w')"
    and p: "f_cursor w' = f_cursor w + int (length c - nat (f_cursor w))"
       "handler w' = handler w" "files w' = files w"
    by (auto simp: sys_def)
  have "f_cursor w' = int (length c)" using p(1) assms(4,5) by simp
  then show ?thesis using assms(1,3,4) r p(2,3)
    by (simp add: dump_def Let_def sys_def)
qed

text \<open>
  Claim C4 expects \<^verbatim>\<open>dump\<close> to return without output when the log file does not
  exist. \<^verbatim>\<open>open\<close> then answers \<open>-1\<close>, and the test \<^verbatim>\<open>if (!dump_fd)\<close> is true for 0
  only, so \<^verbatim>\<open>dump\<close> goes on: it calls \<^verbatim>\<open>read\<close> on descriptor \<open>-1\<close>, adds the answer
  \<open>-1\<close> to the cursor static, and writes \<^verbatim>\<open>buf[-1]\<close>. Nothing is reported, also with
  the debug macros compiled in (level 1). In the C++ the loop would then print the
  uninitialised buffer and, \<open>bytes\<close> being \<open>-1\<close>, come round again.
\<close>

theorem dump_of_missing_file:
  "dump 3 [] True (start_world ''test'' True Map.empty 1)
   = Inl (Buffer_index_out_of_range (-1) []
       ((start_world ''test'' True Map.empty 1)
          \<lparr>f_cursor := -1, calls := [Sys_open_rdonly ''/log/test.log'', Sys_read (-1)]\<rparr>))"
  by (simp add: dump_def Let_def start_world_def FSLogHandler_ctor_def configureFsync_def
      sys_def dump_loop.simps sys_read_def)

text \<open>
  Claim C6 as it is written speaks of every file content. \<^verbatim>\<open>dump\<close> prints each chunk
  with \<^verbatim>\<open>printf("%s", buf)\<close>, which stops at a NUL byte: after a full dump of the three
  bytes \<open>abc\<close> (cursor 3), the three bytes \<open>d\<close>, NUL, \<open>e\<close> are appended, and the
  incremental dump hands over \<open>d\<close> alone while the cursor moves on to 6.
\<close>

theorem dump_stops_at_NUL:
  "\<exists>w3. dump 4 [] False
          ((start_world ''test'' True
              [''/log/test.log'' \<mapsto> ''abc'' @ [CHR ''d'', CHR 0x00, CHR ''e'']] 0)
             \<lparr>f_cursor := 3\<rparr>)
        = Inr (''d'', w3) \<and> f_cursor w3 = 6"
  by (simp add: dump_def Let_def start_world_def FSLogHandler_ctor_def configureFsync_def
      sys_def dump_loop.simps sys_read_def)

text \<open>
  Claim C6, amended: for every log file content \<open>xs\<close> without a NUL byte (a line that
  \<^verbatim>\<open>logMessage\<close> writes is a C string and has none) and descriptors other than 0
  handed out by \<^verbatim>\<open>open\<close>, \<^verbatim>\<open>dump(stream, true)\<close> returns having appended exactly
  \<open>xs\<close> to the stream, with the cursor at the length of \<open>xs\<close>; and in any later state
  in which the file has grown by NUL-free bytes \<open>ys\<close> and the cursor static is
  untouched, \<^verbatim>\<open>dump(stream, false)\<close> returns having appended exactly \<open>ys\<close>, with the
  cursor at the new length.
\<close>

theorem dump_resumes_after_full_dump:
  assumes "files w (m_path (handler w)) = Some xs"
    and "CHR 0x00 \<notin> set xs" and "CHR 0x00 \<notin> set ys"
    and "0 < fd1" and "0 < fd2"
  shows "\<exists>w1. dump fd1 stream True w = Inr (stream @ xs, w1)
            \<and> f_cursor w1 = int (length xs)
            \<and> (\<forall>w2 stream2.
                  m_path (handler w2) = m_path (handler w) \<and> f_cursor w2 = f_cursor w1
                  \<and> files w2 (m_path (handler w)) = Some (xs @ ys) \<longrightarrow>
                  (\<exists>w3. dump fd2 stream2 False w2 = Inr (stream2 @ ys, w3)
                        \<and> f_cursor w3 = int (length xs + length ys)))"
proof -
  from dump_from_beginning[OF assms(1,2,4), of stream]
  obtain w1 where 1: "dump fd1 stream True w = Inr (stream @ xs, w1)"
    and c1: "f_cursor w1 = int (length xs)" by blast
  have "\<exists>w3. dump fd2 stream2 False w2 = Inr (stream2 @ ys, w3)
                        \<and> f_cursor w3 = int (length xs + length ys)"
    if a: "m_path (handler w2) = m_path (handler w)" "f_cursor w2 = f_cursor w1"
       "files w2 (m_path (handler w)) = Some (xs @ ys)" for w2 stream2
  proof -
    have f: "files w2 (m_path (handler w2)) = Some (xs @ ys)" using a by simp
    have n: "CHR 0x00 \<notin> set (xs @ ys)" using assms(2,3) by simp
    have "0 \<le> f_cursor w2" "nat (f_cursor w2) \<le> length (xs @ ys)" using a(2) c1 by simp_all
    from dump_incremental[OF f n assms(5) this, of stream2] show ?thesis
      using a(2) c1 by auto
  qed
  then show ?thesis using 1 c1 by blast
qed

text \<open>
  The theorem at a file holding \<open>abc\<close> that grows to \<open>abcde\<close>: the full dump hands
  over \<open>abc\<close>, the incremental one \<open>de\<close>.
\<close>

theorem dump_resumes_after_full_dump_witness:
  "\<exists>w1 w3. dump 3 [] True (start_world ''test'' True [''/log/test.log'' \<mapsto> ''abc''] 0)
              = Inr (''abc'', w1)
      \<and> dump 4 [] False
          ((start_world ''test'' True [''/log/test.log'' \<mapsto> ''abcde''] 0)\<lparr>f_cursor := 3\<rparr>)
          = Inr (''de'', w3)"
proof -
  let ?w = "start_world ''test'' True [''/log/test.log'' \<mapsto> ''abc''] 0"
  let ?w2 = "(start_world ''test'' True [''/log/test.log'' \<mapsto> ''abcde''] 0)\<lparr>f_cursor := 3\<rparr>"
  have p: "m_path (handler ?w) = ''/log/test.log''"
    by (simp add: start_world_def FSLogHandler_ctor_def configureFsync_def)
  have h1: "files ?w (m_path (handler ?w)) = Some ''abc''"
    unfolding p by (simp add: start_world_def)
  have h2: "CHR 0x00 \<notin> set ''abc''" and h3: "CHR 0x00 \<notin> set ''de''" by simp_all
  have h4: "(0::int) < 3" and h5: "(0::int) < 4" by simp_all
  from dump_resumes_after_full_dump[OF h1 h2 h3 h4 h5, of "[]"]
  obtain w1 where 1: "dump 3 [] True ?w = Inr ([] @ ''abc'', w1)"
    and c: "f_cursor w1 = int (length ''abc'')"
    and r0: "\<forall>w2 stream2. m_path (handler w2) = m_path (handler ?w) \<and> f_cursor w2 = f_cursor w1
               \<and> files w2 (m_path (handler ?w)) = Some (''abc'' @ ''de'') \<longrightarrow>
               (\<exists>w3. dump 4 stream2 False w2 = Inr (stream2 @ ''de'', w3)
                    \<and> f_cursor w3 = int (length ''abc'' + length ''de''))"
    by blast
  have r: "\<exists>w3. dump 4 stream2 False w2 = Inr (stream2 @ ''de'', w3)"
    if "m_path (handler w2) = m_path (handler ?w)" "f_cursor w2 = f_cursor w1"
       "files w2 (m_path (handler ?w)) = Some (''abc'' @ ''de'')" for w2 stream2
    using r0 that by blast
  have "\<exists>w3. dump 4 [] False ?w2 = Inr ([] @ ''de'', w3)"
  proof (rule r)
    show "m_path (handler ?w2) = m_path (handler ?w)"
      by (simp add: start_world_def FSLogHandler_ctor_def configureFsync_def)
    show "f_cursor ?w2 = f_cursor w1" using c by simp
    show "files ?w2 (m_path (handler ?w)) = Some (''abc'' @ ''de'')"
      unfolding p by (simp add: start_world_def)
  qed
  then show ?thesis using 1 by auto
qed

subsection \<open>clearLogs and getLogSize\<close>

text \<open>
  Claim C5 expects \<^verbatim>\<open>getLogSize\<close> to return 0 (or an error) after \<^verbatim>\<open>clearLogs\<close>.
  After \<^verbatim>\<open>clearLogs\<close> the file is gone and the handler is closed, so \<^verbatim>\<open>getLogSize\<close>
  calls \<^verbatim>\<open>stat\<close> on the path, which fails and leaves \<^verbatim>\<open>statbuf\<close> as it was; the
  result of \<^verbatim>\<open>stat\<close> is not looked at, and what is returned is whatever the
  uninitialised \<^verbatim>\<open>statbuf.st_size\<close> held, \<open>st0\<close>.
\<close>

theorem clearLogs_then_getLogSize:
  "files (clearLogs w) (m_path (handler w)) = None
   \<and> \<not> m_open (handler (clearLogs w))
   \<and> fst (getLogSize st0 (clearLogs w)) = st0"
proof -
  have p: "m_path (handler (syncAndClose w)) = m_path (handler w)"
    by (simp add: syncAndClose_def Let_def)
  have o: "\<not> m_open (handler (syncAndClose w))"
    by (simp add: syncAndClose_def Let_def)
  show ?thesis using p o
    by (simp add: clearLogs_def getLogSize_def Let_def getPath_def st_size_after_def)
qed

subsection \<open>logMessage, fileInit and writeToFile\<close>

lemma writeToFile_handler:
  "handler (writeToFile r message w) =
     (if r = -1 then handler w
      else (handler w)\<lparr>m_bytes_queued := m_bytes_queued (handler w) + of_nat (length message)\<rparr>)"
  by (simp add: writeToFile_def Let_def sys_write_def)

lemma writeToFile_calls:
  "calls (writeToFile r message w) = calls w @ [Sys_write (m_fd (handler w)) message]"
  by (simp add: writeToFile_def Let_def sys_write_def)

lemma writeToFile_files:
  "files (writeToFile r message w) =
     (if r < 0 then files w
      else (case files w (m_path (handler w)) of
              None \<Rightarrow> files w
            | Some c \<Rightarrow> (files w)(m_path (handler w) \<mapsto> c @ take (nat r) message)))"
  by (simp add: writeToFile_def Let_def sys_write_def)

lemma fileInit_short_circuit:
  "m_open (handler w) \<Longrightarrow> m_fd (handler w) \<noteq> -1 \<Longrightarrow> fileInit e w = (True, w)"
  by (simp add: fileInit_def)

lemma fileInit_opens:
  assumes "\<not> m_open (handler w)" and "open_result e \<noteq> -1"
  shows "fst (fileInit e w)"
    and "handler (snd (fileInit e w)) = (handler w)\<lparr>m_fd := open_result e, m_open := True\<rparr>"
    and "filter is_open_trunc (calls (snd (fileInit e w)))
         = filter is_open_trunc (calls w) @ [Sys_open_wronly_creat_trunc (m_path (handler w))]"
    and "files (snd (fileInit e w)) (m_path (handler w)) = Some []"
  using assms by (simp_all add: fileInit_def Let_def sys_open_trunc_def)

lemma fileInit_inv:
  "handler_inv (handler w) \<Longrightarrow> handler_inv (handler (snd (fileInit e w)))"
  by (auto simp: fileInit_def Let_def sys_open_trunc_def handler_inv_def)

lemma fileInit_true_open:
  "fst (fileInit e w) \<Longrightarrow> m_open (handler (snd (fileInit e w)))"
  by (auto simp: fileInit_def Let_def sys_open_trunc_def split: if_splits)

lemma logMessage_when_open:
  assumes "m_enabled (handler w)" and "m_open (handler w)" and "m_fd (handler w) \<noteq> -1"
    and "files w (m_path (handler w)) = Some content"
  shows "m_enabled (handler (logMessage levelName fmt_p c w))"
    and "m_open (handler (logMessage levelName fmt_p c w))"
    and "m_fd (handler (logMessage levelName fmt_p c w)) = m_fd (handler w)"
    and "m_path (handler (logMessage levelName fmt_p c w)) = m_path (handler w)"
    and "filter is_open_trunc (calls (logMessage levelName fmt_p c w))
         = filter is_open_trunc (calls w)"
    and "files (logMessage levelName fmt_p c w) (m_path (handler w))
         = Some (content @ written levelName fmt_p c)"
  using assms
  by (simp_all add: logMessage_unfold fileInit_short_circuit writeToFile_handler
      writeToFile_calls writeToFile_files written_def)

lemma logMessages_when_open:
  assumes "m_enabled (handler w)" and "m_open (handler w)" and "m_fd (handler w) \<noteq> -1"
    and "files w (m_path (handler w)) = Some content"
  shows "m_open (handler (logMessages levelName fmt_p cs w))
       \<and> m_path (handler (logMessages levelName fmt_p cs w)) = m_path (handler w)
       \<and> filter is_open_trunc (calls (logMessages levelName fmt_p cs w))
           = filter is_open_trunc (calls w)
       \<and> files (logMessages levelName fmt_p cs w) (m_path (handler w))
           = Some (content @ concat (map (written levelName fmt_p) cs))"
  using assms
proof (induction cs arbitrary: w content)
  case Nil
  then show ?case by (simp add: logMessages_def)
next
  case (Cons c cs)
  let ?w1 = "logMessage levelName fmt_p c w"
  note s = logMessage_when_open[OF Cons.prems, of levelName fmt_p c]
  have f: "files ?w1 (m_path (handler ?w1)) = Some (content @ written levelName fmt_p c)"
    using s(4,6) by simp
  have fd: "m_fd (handler ?w1) \<noteq> -1" using s(3) Cons.prems(3) by simp
  from Cons.IH[OF s(1) s(2) fd f] s(4,5)
  show ?case by (simp add: logMessages_def)
qed

lemma logMessage_when_closed:
  assumes "m_enabled (handler w)" and "\<not> m_open (handler w)"
    and "open_result (call_env c) \<noteq> -1"
  shows "m_enabled (handler (logMessage levelName fmt_p c w))"
    and "m_open (handler (logMessage levelName fmt_p c w))"
    and "m_fd (handler (logMessage levelName fmt_p c w)) \<noteq> -1"
    and "m_path (handler (logMessage levelName fmt_p c w)) = m_path (handler w)"
    and "filter is_open_trunc (calls (logMessage levelName fmt_p c w))
         = filter is_open_trunc (calls w) @ [Sys_open_wronly_creat_trunc (m_path (handler w))]"
    and "files (logMessage levelName fmt_p c w) (m_path (handler w))
         = Some (written levelName fmt_p c)"
  using assms fileInit_opens[OF assms(2,3)]
  by (simp_all add: logMessage_unfold writeToFile_handler
      writeToFile_calls writeToFile_files written_def)

lemma sample_written:
  "written sample_levelName sample_fmt_p sample_call = ''INFO: hello'' @ [CHR 0x0A, CHR 0x0D]"
  by (simp add: written_def sample_call_def sample_env_def sample_attr_def renderLine_def
      sample_levelName_def)

text \<open>
  Claim C7: while the handler is disabled, any sequence of \<^verbatim>\<open>logMessage\<close> calls,
  whatever the records and whatever the filesystem would answer, leaves everything as
  it was: the files (none is created or appended to), the trace of system calls (no
  \<^verbatim>\<open>open\<close>, no \<^verbatim>\<open>write\<close>), and the handler with its pending counter.
\<close>

theorem logMessage_disabled_is_noop:
  assumes "\<not> m_enabled (handler w)"
  shows "logMessages levelName fmt_p cs w = w"
  using assms unfolding logMessages_def
  by (induction cs) (simp_all add: logMessage_def)

text \<open>The theorem at a handler constructed disabled on an empty filesystem, two calls.\<close>

theorem logMessage_disabled_is_noop_witness:
  "logMessages sample_levelName sample_fmt_p [sample_call, sample_call]
     (start_world ''test'' False Map.empty 0) = start_world ''test'' False Map.empty 0"
proof -
  have "\<not> m_enabled (handler (start_world ''test'' False Map.empty 0))"
    by (simp add: start_world_def FSLogHandler_ctor_def configureFsync_def)
  then show ?thesis by (rule logMessage_disabled_is_noop)
qed

text \<open>
  Claim C8: from an enabled handler whose file is not open (as after construction and
  after \<^verbatim>\<open>clearLogs\<close>), a \<^verbatim>\<open>logMessage\<close> call whose \<^verbatim>\<open>open\<close> succeeds followed by
  any further \<^verbatim>\<open>logMessage\<close> calls leaves the file open, has issued exactly one
  truncating \<^verbatim>\<open>open\<close> (that of the first call), and the file holds what the calls
  wrote, one after the other, and nothing of what it held before.
\<close>

theorem truncate_once_then_append:
  assumes "m_enabled (handler w)" and "\<not> m_open (handler w)"
    and "open_result (call_env c) \<noteq> -1"
  shows "m_open (handler (logMessages levelName fmt_p (c # cs) w))
       \<and> filter is_open_trunc (calls (logMessages levelName fmt_p (c # cs) w))
           = filter is_open_trunc (calls w) @ [Sys_open_wronly_creat_trunc (m_path (handler w))]
       \<and> files (logMessages levelName fmt_p (c # cs) w) (m_path (handler w))
           = Some (concat (map (written levelName fmt_p) (c # cs)))"
proof -
  let ?w1 = "logMessage levelName fmt_p c w"
  note s = logMessage_when_closed[OF assms, of levelName fmt_p]
  have f: "files ?w1 (m_path (handler ?w1)) = Some (written levelName fmt_p c)"
    using s(4,6) by simp
  from logMessages_when_open[OF s(1) s(2) s(3) f, of levelName fmt_p cs] s(4,5)
  show ?thesis by (simp add: logMessages_def)
qed

text \<open>
  The theorem at a freshly constructed handler whose log file holds stale bytes: after
  two calls the file holds the two lines, and one truncating \<^verbatim>\<open>open\<close> was issued.
\<close>

theorem truncate_once_then_append_witness:
  "files (logMessages sample_levelName sample_fmt_p [sample_call, sample_call]
            (start_world ''test'' True [''/log/test.log'' \<mapsto> ''stale bytes''] 0))
     ''/log/test.log''
   = Some (''INFO: hello'' @ [CHR 0x0A, CHR 0x0D] @ ''INFO: hello'' @ [CHR 0x0A, CHR 0x0D])
   \<and> filter is_open_trunc
       (calls (logMessages sample_levelName sample_fmt_p [sample_call, sample_call]
                 (start_world ''test'' True [''/log/test.log'' \<mapsto> ''stale bytes''] 0)))
     = [Sys_open_wronly_creat_trunc ''/log/test.log'']"
proof -
  let ?w = "start_world ''test'' True [''/log/test.log'' \<mapsto> ''stale bytes''] 0"
  have h: "m_enabled (handler ?w)" "\<not> m_open (handler ?w)"
    "open_result (call_env sample_call) \<noteq> -1"
    by (simp_all add: start_world_def FSLogHandler_ctor_def configureFsync_def
        sample_call_def sample_env_def)
  have p: "m_path (handler ?w) = ''/log/test.log''" "calls ?w = []"
    by (simp_all add: start_world_def FSLogHandler_ctor_def configureFsync_def)
  from truncate_once_then_append[OF h, of sample_levelName sample_fmt_p "[sample_call]"]
  show ?thesis by (simp add: p sample_written)
qed

text \<open>
  Claim C9 as it is written says a write failure is reported to the diagnostic channel.
  Compiled as the header has it, with \<^verbatim>\<open>FS_LOG_HANDLER_DEBUG_LEVEL\<close> 0,
  \<^verbatim>\<open>DEBUG_PRINTLNF\<close> expands to nothing: a failed write reaches no channel at all.
\<close>

theorem writeToFile_failure_unreported:
  "serial (writeToFile (-1) ''INFO: hello'' (open_world 0 0)) = []"
  by (simp add: writeToFile_def Let_def sys_write_def DEBUG_PRINTLNF_def open_world_def)

text \<open>
  Claim C9, amended: when \<^verbatim>\<open>write\<close> answers \<open>-1\<close>, \<^verbatim>\<open>writeToFile\<close> returns with the
  handler, and so the pending counter, unchanged; it has issued that one \<^verbatim>\<open>write\<close>
  and no other system call (no retry); no file has changed (nothing about the failure
  goes to the log file); and the serial channel has received the failure message if the
  debug level is above 0 and nothing if it is 0.
\<close>

theorem writeToFile_failure:
  "handler (writeToFile (-1) message w) = handler w
   \<and> m_bytes_queued (handler (writeToFile (-1) message w)) = m_bytes_queued (handler w)
   \<and> calls (writeToFile (-1) message w) = calls w @ [Sys_write (m_fd (handler w)) message]
   \<and> files (writeToFile (-1) message w) = files w
   \<and> serial (writeToFile (-1) message w)
       = serial w @ (if 0 < FS_LOG_HANDLER_DEBUG_LEVEL w then [Debug_write_failed] else [])"
  by (simp add: writeToFile_def Let_def sys_write_def DEBUG_PRINTLNF_def)

subsection \<open>The invariant of the handler's members\<close>

lemma logMessage_inv:
  assumes "handler_inv (handler w)"
  shows "handler_inv (handler (logMessage levelName fmt_p c w))"
proof -
  let ?f = "fileInit (call_env c) w"
  have i: "handler_inv (handler (snd ?f))" using assms by (rule fileInit_inv)
  show ?thesis
  proof (cases "fst ?f")
    case True
    then have "m_open (handler (snd ?f))" by (rule fileInit_true_open)
    then show ?thesis using i True assms
      by (simp add: logMessage_unfold writeToFile_handler handler_inv_def)
  next
    case False
    then show ?thesis using i assms by (simp add: logMessage_unfold)
  qed
qed

lemma syncAndClose_inv: "handler_inv (handler w) \<Longrightarrow> handler_inv (handler (syncAndClose w))"
  by (simp add: syncAndClose_def Let_def handler_inv_def)

lemma clearLogs_inv: "handler_inv (handler w) \<Longrightarrow> handler_inv (handler (clearLogs w))"
  using syncAndClose_inv[of w] by (simp add: clearLogs_def Let_def)

lemma loop_inv: "handler_inv (handler w) \<Longrightarrow> handler_inv (handler (loop uptime w))"
  by (simp add: loop_def Let_def handler_inv_def)

lemma step_inv:
  assumes "handler_inv (handler w)"
  shows "handler_inv (handler (step levelName fmt_p w x))"
proof (cases x)
  case (Op_logMessage c)
  then show ?thesis using assms by (simp add: logMessage_inv)
next
  case (Op_loop u)
  then show ?thesis using assms by (simp add: loop_inv)
next
  case Op_clearLogs
  then show ?thesis using assms by (simp add: clearLogs_inv)
next
  case (Op_configureFsync a b)
  then show ?thesis using assms by (simp add: configureFsync_def handler_inv_def)
next
  case (Op_enable en)
  then show ?thesis using assms by (simp add: enable_def handler_inv_def)
next
  case Op_destructor
  then show ?thesis using assms by (simp add: syncAndClose_inv)
qed

lemma run_inv:
  "handler_inv (handler w) \<Longrightarrow> handler_inv (handler (run levelName fmt_p ops w))"
  unfolding run_def
  by (induction ops arbitrary: w) (simp_all add: step_inv)

lemma ctor_inv: "handler_inv (FSLogHandler_ctor filename enable_now)"
  by (simp add: FSLogHandler_ctor_def configureFsync_def handler_inv_def)

text \<open>
  Claim C10: after construction and any sequence of \<^verbatim>\<open>logMessage\<close>, \<^verbatim>\<open>loop\<close>,
  \<^verbatim>\<open>clearLogs\<close>, \<^verbatim>\<open>configureFsync\<close>, \<^verbatim>\<open>enable\<close> and destructor calls, whatever the
  filesystem answers, a handler that is not open has a pending counter of 0, and a
  handler that is open has a descriptor other than \<open>-1\<close>.
\<close>

theorem writer_state_invariant:
  assumes "handler w0 = FSLogHandler_ctor filename enable_now"
  shows "handler_inv (handler (run levelName fmt_p ops w0))"
  using assms ctor_inv[of filename enable_now] by (intro run_inv) simp

text \<open>
  The theorem at two runs from a fresh handler: a \<^verbatim>\<open>logMessage\<close> and a \<^verbatim>\<open>loop\<close>
  leave it open with a valid descriptor; a \<^verbatim>\<open>logMessage\<close> and a \<^verbatim>\<open>clearLogs\<close> leave
  it closed with nothing pending.
\<close>

theorem writer_state_invariant_witness:
  "m_open (handler (run sample_levelName sample_fmt_p [Op_logMessage sample_call, Op_loop 5]
             (start_world ''test'' True Map.empty 0)))
   \<and> m_fd (handler (run sample_levelName sample_fmt_p [Op_logMessage sample_call, Op_loop 5]
             (start_world ''test'' True Map.empty 0))) \<noteq> -1
   \<and> \<not> m_open (handler (run sample_levelName sample_fmt_p [Op_logMessage sample_call, Op_clearLogs]
             (start_world ''test'' True Map.empty 0)))
   \<and> m_bytes_queued (handler (run sample_levelName sample_fmt_p
             [Op_logMessage sample_call, Op_clearLogs]
             (start_world ''test'' True Map.empty 0))) = 0"
proof -
  let ?w = "start_world ''test'' True Map.empty 0"
  let ?w1 = "logMessage sample_levelName sample_fmt_p sample_call ?w"
  have c: "handler ?w = FSLogHandler_ctor ''test'' True" by (simp add: start_world_def)
  have h: "m_enabled (handler ?w)" "\<not> m_open (handler ?w)"
    "open_result (call_env sample_call) \<noteq> -1"
    by (simp_all add: start_world_def FSLogHandler_ctor_def configureFsync_def
        sample_call_def sample_env_def)
  have o1: "m_open (handler ?w1)" using h by (rule logMessage_when_closed)
  have a: "m_open (handler (run sample_levelName sample_fmt_p
             [Op_logMessage sample_call, Op_loop 5] ?w))"
    using o1 by (simp add: run_def loop_def Let_def)
  have b: "\<not> m_open (handler (run sample_levelName sample_fmt_p
             [Op_logMessage sample_call, Op_clearLogs] ?w))"
    using o1 by (simp add: run_def clearLogs_def syncAndClose_def Let_def)
  show ?thesis
    using a b
      writer_state_invariant[OF c, of sample_levelName sample_fmt_p
        "[Op_logMessage sample_call, Op_loop 5]"]
      writer_state_invariant[OF c, of sample_levelName sample_fmt_p
        "[Op_logMessage sample_call, Op_clearLogs]"]
    by (simp add: handler_inv_def)
qed

end
